theory Spec2Isabelle
  imports Main
begin

section \<open>Python values, exceptions and the runtime\<close>

text \<open>
  The walker of \<^verbatim>\<open>bionic/code_references.py\<close> keeps one Python value in its register
  \<^verbatim>\<open>tos\<close> and tells three kinds apart with \<^verbatim>\<open>tos is None\<close> and
  \<^verbatim>\<open>isinstance(tos, str)\<close>. The values are therefore modelled with \<open>None\<close>, the
  strings and the remaining objects as separate constructors. \<open>PObj n\<close> is any other
  object (a function, a class, a module, an instance), named by \<open>n\<close>.
\<close>

datatype pyval = PNone | PBool bool | PInt int | PStr string | PObj nat

text \<open>
  The exceptions that can occur. \<^verbatim>\<open>except Exception\<close> catches the instances of
  \<^verbatim>\<open>Exception\<close>; \<^verbatim>\<open>SystemExit\<close> and \<^verbatim>\<open>KeyboardInterrupt\<close> derive from
  \<^verbatim>\<open>BaseException\<close> only and pass through it.
\<close>

datatype exn =
    ImportError string
  | AttributeError string
  | KeyError string
  | TypeError string
  | ValueError string
  | AssertionError
  | UserWarning string
  | OtherException string
  | SystemExit
  | KeyboardInterrupt

fun is_Exception :: "exn \<Rightarrow> bool" where
  "is_Exception SystemExit = False"
| "is_Exception KeyboardInterrupt = False"
| "is_Exception _ = True"

fun is_ImportError :: "exn \<Rightarrow> bool" where
  "is_ImportError (ImportError _) = True"
| "is_ImportError _ = False"

text \<open>
  The message the handler passes to \<^verbatim>\<open>warnings.warn\<close>: the text built by
  \<^verbatim>\<open>oneline\<close> names the file, the last known line and the callable, and
  \<^verbatim>\<open>str(e)\<close> is appended to it. The message is kept as these four parts.
\<close>

record warning =
  w_filename :: string
  w_lineno :: "int option"
  w_name :: string
  w_text :: string

text \<open>
  What the walker asks of the interpreter, taken as a parameter: \<^verbatim>\<open>getattr(v, name)\<close>,
  \<^verbatim>\<open>importlib.import_module(name)\<close>, the truth value of an object (its
  \<^verbatim>\<open>__bool__\<close> or \<^verbatim>\<open>__len__\<close>), \<^verbatim>\<open>str(e)\<close> of a caught exception, and
  \<^verbatim>\<open>warnings.warn(message)\<close>, which returns (\<open>None\<close>) or raises (under the warnings
  filter \<^verbatim>\<open>error\<close> it raises the warning itself). Each may raise. They are functions
  of their arguments: a lookup that runs code with side effects is outside the model.
\<close>

record runtime =
  rt_getattr :: "pyval \<Rightarrow> string \<Rightarrow> exn + pyval"
  rt_import :: "string \<Rightarrow> exn + pyval"
  rt_bool :: "nat \<Rightarrow> exn + bool"
  rt_str :: "exn \<Rightarrow> exn + string"
  rt_warn :: "warning \<Rightarrow> exn option"

text \<open>The truth value Python gives \<^verbatim>\<open>tos\<close> in \<^verbatim>\<open>... and tos\<close>.\<close>

fun truthy :: "runtime \<Rightarrow> pyval \<Rightarrow> exn + bool" where
  "truthy rt PNone = Inr False"
| "truthy rt (PBool b) = Inr b"
| "truthy rt (PInt i) = Inr (i \<noteq> 0)"
| "truthy rt (PStr s) = Inr (s \<noteq> [])"
| "truthy rt (PObj n) = rt_bool rt n"

section \<open>Code objects, callables and the context\<close>

text \<open>
  One instruction as \<^verbatim>\<open>dis.get_instructions\<close> yields it: the walker reads
  \<^verbatim>\<open>opname\<close>, \<^verbatim>\<open>argval\<close> (a name, for every opcode whose operand it reads) and
  \<^verbatim>\<open>starts_line\<close>.
\<close>

record instr =
  opname :: string
  argval :: string
  starts_line :: "int option"

record code =
  co_filename :: string
  co_name :: string
  co_cellvars :: "string list"
  co_freevars :: "string list"
  instructions :: "instr list"

text \<open>
  A callable: \<^verbatim>\<open>__code__\<close>, \<^verbatim>\<open>__closure__\<close> (\<open>None\<close> or a tuple of cells, a
  cell being empty or holding a value), \<^verbatim>\<open>__globals__\<close>, and \<^verbatim>\<open>__self__\<close> when
  \<^verbatim>\<open>inspect.ismethod\<close> holds.
\<close>

record func =
  f_code :: code
  f_closure :: "pyval option list option"
  f_globals :: "string \<rightharpoonup> pyval"
  f_self :: "pyval option"

record CodeContext =
  globals :: "string \<rightharpoonup> pyval"
  cells :: "string \<rightharpoonup> pyval"
  varnames :: "string \<rightharpoonup> pyval"

text \<open>\<^verbatim>\<open>c.cell_contents\<close> for every cell, left to right; an empty cell raises.\<close>

fun cell_contents :: "pyval option list \<Rightarrow> exn + pyval list" where
  "cell_contents [] = Inr []"
| "cell_contents (None # cs) = Inl (ValueError ''Cell is empty'')"
| "cell_contents (Some v # cs) =
     (case cell_contents cs of Inl e \<Rightarrow> Inl e | Inr vs \<Rightarrow> Inr (v # vs))"

text \<open>\<^verbatim>\<open>d.update(pairs)\<close>: the pairs are stored in order, a later one replacing an earlier.\<close>

definition dict_update :: "('k \<times> 'v) list \<Rightarrow> ('k \<rightharpoonup> 'v) \<Rightarrow> ('k \<rightharpoonup> 'v)" where
  "dict_update kvs m = fold (\<lambda>(k, v) d. d(k \<mapsto> v)) kvs m"

text \<open>
  \<^verbatim>\<open>get_code_context\<close>. The \<^verbatim>\<open>assert\<close> is executed (the interpreter does not run
  with \<^verbatim>\<open>-O\<close>); \<^verbatim>\<open>len(None)\<close> is a \<^verbatim>\<open>TypeError\<close>.
\<close>

definition get_code_context :: "func \<Rightarrow> exn + CodeContext" where
  "get_code_context f =
     (let c = f_code f;
          cells0 = fold (\<lambda>var d. d(var \<mapsto> PStr var)) (co_cellvars c) Map.empty;
          vn = (case f_self f of None \<Rightarrow> Map.empty | Some s \<Rightarrow> [''self'' \<mapsto> s])
      in if co_freevars c \<noteq> [] then
           (case f_closure f of
              None \<Rightarrow> Inl (TypeError ''object of type NoneType has no len()'')
            | Some cl \<Rightarrow>
                if length (co_freevars c) \<noteq> length cl then Inl AssertionError
                else (case cell_contents cl of
                        Inl e \<Rightarrow> Inl e
                      | Inr vs \<Rightarrow>
                          Inr \<lparr>globals = f_globals f,
                               cells = dict_update (zip (co_freevars c) vs) cells0,
                               varnames = vn\<rparr>))
         else Inr \<lparr>globals = f_globals f, cells = cells0, varnames = vn\<rparr>)"

section \<open>The walker\<close>

text \<open>
  The state of one walk: the locals \<^verbatim>\<open>tos\<close>, \<^verbatim>\<open>lineno\<close> and \<^verbatim>\<open>refs\<close>, the
  context object the caller passed (its \<^verbatim>\<open>varnames\<close> dictionary is written in place),
  and the messages of the calls of \<^verbatim>\<open>warnings.warn\<close> that have returned so far.
\<close>

record wstate =
  tos :: pyval
  lineno :: "int option"
  refs :: "pyval list"
  wcontext :: CodeContext
  warnings :: "warning list"

definition set_tos :: "pyval \<Rightarrow> wstate \<Rightarrow> wstate" where
  "set_tos t st =
     (if tos st \<noteq> PNone then st\<lparr>refs := refs st @ [tos st], tos := t\<rparr>
      else st\<lparr>tos := t\<rparr>)"

text \<open>The final \<^verbatim>\<open>else\<close> of the chain: every other instruction.\<close>

definition other_instr :: "wstate \<Rightarrow> wstate" where
  "other_instr st =
     (if tos st \<noteq> PNone then st\<lparr>refs := refs st @ [tos st], tos := PNone\<rparr> else st)"

text \<open>
  The body of the \<^verbatim>\<open>try\<close> after the line bookkeeping: the \<^verbatim>\<open>if\<close>/\<^verbatim>\<open>elif\<close> chain on
  \<^verbatim>\<open>op.opname\<close>, in the source's order. \<open>Inl e\<close> is the exception \<open>e\<close> raised; every
  raise of the chain happens before the branch has written anything.
\<close>

definition dispatch :: "runtime \<Rightarrow> instr \<Rightarrow> wstate \<Rightarrow> exn + wstate" where
  "dispatch rt op st =
     (let a = argval op; ctx = wcontext st in
      if opname op \<in> set [''LOAD_GLOBAL'', ''LOAD_NAME''] then
        (case globals ctx a of
           Some v \<Rightarrow> Inr (set_tos v st)
         | None \<Rightarrow> Inr (set_tos (PStr a) st))
      else if opname op \<in> set [''LOAD_DEREF'', ''LOAD_CLOSURE''] then
        (case cells ctx a of
           Some v \<Rightarrow> Inr (set_tos v st)
         | None \<Rightarrow> Inl (KeyError a))
      else if opname op = ''IMPORT_NAME'' then
        (case rt_import rt a of
           Inr m \<Rightarrow> Inr (set_tos m st)
         | Inl e \<Rightarrow> if is_ImportError e then Inr (set_tos (PStr a) st) else Inl e)
      else if opname op \<in> set [''LOAD_METHOD'', ''LOAD_ATTR'', ''IMPORT_FROM''] then
        (case tos st of
           PNone \<Rightarrow> Inr (st\<lparr>refs := refs st @ [PStr a]\<rparr>)
         | PStr s \<Rightarrow> Inr (st\<lparr>tos := PStr (s @ ''.'' @ a)\<rparr>)
         | v \<Rightarrow> (case rt_getattr rt v a of
                   Inr r \<Rightarrow> Inr (st\<lparr>tos := r\<rparr>)
                 | Inl e \<Rightarrow> Inl e))
      else if opname op = ''DELETE_FAST'' then
        (case truthy rt (tos st) of
           Inl e \<Rightarrow> Inl e
         | Inr True \<Rightarrow>
             (case varnames ctx a of
                None \<Rightarrow> Inl (KeyError a)
              | Some _ \<Rightarrow>
                  Inr (st\<lparr>wcontext := ctx\<lparr>varnames := (varnames ctx)(a := None)\<rparr>,
                          tos := PNone\<rparr>))
         | Inr False \<Rightarrow> Inr (other_instr st))
      else if opname op = ''STORE_FAST'' then
        (case truthy rt (tos st) of
           Inl e \<Rightarrow> Inl e
         | Inr True \<Rightarrow>
             Inr (st\<lparr>wcontext := ctx\<lparr>varnames := (varnames ctx)(a \<mapsto> tos st)\<rparr>,
                     tos := PNone\<rparr>)
         | Inr False \<Rightarrow> Inr (other_instr st))
      else if opname op = ''LOAD_FAST'' then
        (case varnames ctx a of
           Some v \<Rightarrow> Inr (set_tos v st)
         | None \<Rightarrow> Inr (other_instr st))
      else Inr (other_instr st))"

text \<open>
  The line bookkeeping at the head of the \<^verbatim>\<open>try\<close>: a line marker replaces
  \<^verbatim>\<open>lineno\<close>, no marker keeps the previous one.
\<close>

definition track_line :: "instr \<Rightarrow> wstate \<Rightarrow> wstate" where
  "track_line op st = (case starts_line op of None \<Rightarrow> st | Some l \<Rightarrow> st\<lparr>lineno := Some l\<rparr>)"

text \<open>The message for an exception whose \<^verbatim>\<open>str\<close> is \<open>s\<close>.\<close>

definition message :: "code \<Rightarrow> wstate \<Rightarrow> string \<Rightarrow> warning" where
  "message c st s =
     \<lparr>w_filename = co_filename c, w_lineno = lineno st, w_name = co_name c, w_text = s\<rparr>"

text \<open>
  The handler. It builds the message, appends \<^verbatim>\<open>str(e)\<close> and calls
  \<^verbatim>\<open>warnings.warn\<close>; it assigns to no variable of the walk. It is not inside any
  \<^verbatim>\<open>try\<close>: an exception raised by \<^verbatim>\<open>str(e)\<close> or by \<^verbatim>\<open>warnings.warn\<close>, of
  whatever class, leaves the function. (\<^verbatim>\<open>oneline\<close> and the formatting of the file
  name, the line and the callable's name are taken to return.)
\<close>

definition warn :: "runtime \<Rightarrow> code \<Rightarrow> exn \<Rightarrow> wstate \<Rightarrow> exn + wstate" where
  "warn rt c e st =
     (case rt_str rt e of
        Inl e' \<Rightarrow> Inl e'
      | Inr s \<Rightarrow>
          (case rt_warn rt (message c st s) of
             Some e' \<Rightarrow> Inl e'
           | None \<Rightarrow> Inr (st\<lparr>warnings := warnings st @ [message c st s]\<rparr>)))"

text \<open>
  One iteration of the \<^verbatim>\<open>for\<close> loop: the line bookkeeping, the dispatch, and the
  handler of \<^verbatim>\<open>except Exception\<close>. An exception that is no \<^verbatim>\<open>Exception\<close> leaves
  the function, and so does one raised by the handler.
\<close>

definition step :: "runtime \<Rightarrow> code \<Rightarrow> instr \<Rightarrow> wstate \<Rightarrow> exn + wstate" where
  "step rt c op st =
     (let st1 = track_line op st in
      case dispatch rt op st1 of
        Inr st2 \<Rightarrow> Inr st2
      | Inl e \<Rightarrow> if is_Exception e then warn rt c e st1 else Inl e)"

text \<open>The loop over \<^verbatim>\<open>dis.get_instructions(code)\<close>.\<close>

fun walk :: "runtime \<Rightarrow> code \<Rightarrow> instr list \<Rightarrow> wstate \<Rightarrow> exn + wstate" where
  "walk rt c [] st = Inr st"
| "walk rt c (op # ops) st =
     (case step rt c op st of Inl e \<Rightarrow> Inl e | Inr st' \<Rightarrow> walk rt c ops st')"

definition init_state :: "CodeContext \<Rightarrow> wstate" where
  "init_state ctx = \<lparr>tos = PNone, lineno = None, refs = [], wcontext = ctx, warnings = []\<rparr>"

text \<open>
  What a call of \<^verbatim>\<open>get_referenced_objects\<close> leaves behind: the list it returns, the
  context object as the walk left it, and the messages it has warned with.
\<close>

record outcome =
  out_refs :: "pyval list"
  out_context :: CodeContext
  out_warnings :: "warning list"

definition get_referenced_objects :: "runtime \<Rightarrow> code \<Rightarrow> CodeContext \<Rightarrow> exn + outcome" where
  "get_referenced_objects rt c ctx =
     (case walk rt c (instructions c) (init_state ctx) of
        Inl e \<Rightarrow> Inl e
      | Inr st \<Rightarrow>
          Inr \<lparr>out_refs = refs st, out_context = wcontext st, out_warnings = warnings st\<rparr>)"

text \<open>\<^verbatim>\<open>get_references\<close> of the tests: a fresh context for every extraction.\<close>

definition get_references :: "runtime \<Rightarrow> func \<Rightarrow> exn + pyval list" where
  "get_references rt f =
     (case get_code_context f of
        Inl e \<Rightarrow> Inl e
      | Inr ctx \<Rightarrow>
          (case get_referenced_objects rt (f_code f) ctx of
             Inl e \<Rightarrow> Inl e
           | Inr out \<Rightarrow> Inr (out_refs out)))"

section \<open>Notions used in the statements\<close>

text \<open>
  An opcode name that none of the tests of the chain mentions: such an instruction
  always reaches the final \<^verbatim>\<open>else\<close>.
\<close>

definition other_opname :: "string \<Rightarrow> bool" where
  "other_opname n \<longleftrightarrow>
     n \<notin> set [''LOAD_GLOBAL'', ''LOAD_NAME'', ''LOAD_DEREF'', ''LOAD_CLOSURE'', ''IMPORT_NAME'',
                ''LOAD_METHOD'', ''LOAD_ATTR'', ''IMPORT_FROM'', ''DELETE_FAST'', ''STORE_FAST'',
                ''LOAD_FAST'']"

text \<open>A runtime whose lookups raise nothing but instances of \<^verbatim>\<open>Exception\<close>.\<close>

definition raises_only_Exception :: "runtime \<Rightarrow> bool" where
  "raises_only_Exception rt \<longleftrightarrow>
     (\<forall>v a e. rt_getattr rt v a = Inl e \<longrightarrow> is_Exception e) \<and>
     (\<forall>n e. rt_import rt n = Inl e \<longrightarrow> is_Exception e) \<and>
     (\<forall>n e. rt_bool rt n = Inl e \<longrightarrow> is_Exception e)"

text \<open>
  A runtime in which reporting succeeds: \<^verbatim>\<open>str(e)\<close> returns for every exception and
  \<^verbatim>\<open>warnings.warn\<close> returns for every message (warnings are not turned into errors).
\<close>

definition reporting_returns :: "runtime \<Rightarrow> bool" where
  "reporting_returns rt \<longleftrightarrow>
     (\<forall>e. \<exists>s. rt_str rt e = Inr s) \<and> (\<forall>w. rt_warn rt w = None)"

section \<open>Concrete inputs\<close>

text \<open>The text of an exception, as the default \<^verbatim>\<open>__str__\<close> gives it.\<close>

fun exn_text :: "exn \<Rightarrow> string" where
  "exn_text (ImportError s) = s"
| "exn_text (AttributeError s) = s"
| "exn_text (KeyError s) = s"
| "exn_text (TypeError s) = s"
| "exn_text (ValueError s) = s"
| "exn_text AssertionError = []"
| "exn_text (UserWarning s) = s"
| "exn_text (OtherException s) = s"
| "exn_text SystemExit = []"
| "exn_text KeyboardInterrupt = []"

text \<open>
  \<open>rt_plain\<close>: no object has an attribute, no module can be imported, every object is
  true, and warnings are issued. \<open>rt_exit\<close>: an attribute lookup ends the interpreter
  (a property that calls \<^verbatim>\<open>sys.exit()\<close>). \<open>rt_warn_error\<close>: as \<open>rt_plain\<close>, with the
  warnings filter \<^verbatim>\<open>error\<close>, under which \<^verbatim>\<open>warnings.warn\<close> raises the warning.
  \<open>rt_attrs\<close>: every attribute lookup succeeds and returns the object 7.
\<close>

definition rt_plain :: runtime where
  "rt_plain = \<lparr>rt_getattr = (\<lambda>v a. Inl (AttributeError a)),
               rt_import = (\<lambda>n. Inl (ImportError n)),
               rt_bool = (\<lambda>n. Inr True),
               rt_str = (\<lambda>e. Inr (exn_text e)),
               rt_warn = (\<lambda>w. None)\<rparr>"

definition rt_exit :: runtime where
  "rt_exit = rt_plain\<lparr>rt_getattr := (\<lambda>v a. Inl SystemExit)\<rparr>"

definition rt_warn_error :: runtime where
  "rt_warn_error = rt_plain\<lparr>rt_warn := (\<lambda>w. Some (UserWarning (w_text w)))\<rparr>"

definition rt_attrs :: runtime where
  "rt_attrs = rt_plain\<lparr>rt_getattr := (\<lambda>v a. Inr (PObj 7))\<rparr>"

definition ins :: "string \<Rightarrow> string \<Rightarrow> instr" where
  "ins n a = \<lparr>opname = n, argval = a, starts_line = None\<rparr>"

definition code_of :: "instr list \<Rightarrow> code" where
  "code_of ops = \<lparr>co_filename = ''m.py'', co_name = ''f'', co_cellvars = [], co_freevars = [],
                  instructions = ops\<rparr>"

text \<open>
  A module namespace with \<^verbatim>\<open>G = 42\<close>, \<^verbatim>\<open>ZERO = 0\<close>, \<^verbatim>\<open>S = "abc"\<close>,
  \<^verbatim>\<open>N = None\<close> and an object \<^verbatim>\<open>OBJ\<close>; no cells, no locals.
\<close>

definition ctx_ex :: CodeContext where
  "ctx_ex = \<lparr>globals = [''G'' \<mapsto> PInt 42, ''ZERO'' \<mapsto> PInt 0, ''S'' \<mapsto> PStr ''abc'',
                        ''N'' \<mapsto> PNone, ''OBJ'' \<mapsto> PObj 1],
             cells = Map.empty, varnames = Map.empty\<rparr>"

text \<open>\<^verbatim>\<open>return OBJ.missing\<close>\<close>

definition code_attr :: code where
  "code_attr = code_of [ins ''LOAD_GLOBAL'' ''OBJ'', ins ''LOAD_ATTR'' ''missing'',
                        ins ''RETURN_VALUE'' []]"

text \<open>A stream that ends with a load.\<close>

definition code_load_last :: code where
  "code_load_last = code_of [ins ''LOAD_GLOBAL'' ''G'']"

text \<open>\<^verbatim>\<open>x = ZERO\<close>\<close>

definition code_store_zero :: code where
  "code_store_zero = code_of [ins ''LOAD_GLOBAL'' ''ZERO'', ins ''STORE_FAST'' ''x'',
                              ins ''LOAD_CONST'' ''None'', ins ''RETURN_VALUE'' []]"

text \<open>\<^verbatim>\<open>x = G\<close>\<close>

definition code_store :: code where
  "code_store = code_of [ins ''LOAD_GLOBAL'' ''G'', ins ''STORE_FAST'' ''x'',
                         ins ''LOAD_CONST'' ''None'', ins ''RETURN_VALUE'' []]"

text \<open>The two instructions of \<^verbatim>\<open>S.upper\<close> and nothing after them.\<close>

definition code_str_attr :: code where
  "code_str_attr = code_of [ins ''LOAD_GLOBAL'' ''S'', ins ''LOAD_ATTR'' ''upper'']"

text \<open>\<^verbatim>\<open>return S.upper\<close>\<close>

definition code_ret_str_attr :: code where
  "code_ret_str_attr = code_of [ins ''LOAD_GLOBAL'' ''S'', ins ''LOAD_ATTR'' ''upper'',
                                ins ''RETURN_VALUE'' []]"

text \<open>\<^verbatim>\<open>return N.real\<close>\<close>

definition code_none_attr :: code where
  "code_none_attr = code_of [ins ''LOAD_GLOBAL'' ''N'', ins ''LOAD_ATTR'' ''real'',
                             ins ''RETURN_VALUE'' []]"

text \<open>A callable with the free variables \<^verbatim>\<open>a\<close>, \<^verbatim>\<open>b\<close> and the closure \<open>cl\<close>.\<close>

definition code_ab :: code where
  "code_ab = \<lparr>co_filename = ''m.py'', co_name = ''f'', co_cellvars = [''c''],
              co_freevars = [''a'', ''b''], instructions = [ins ''LOAD_DEREF'' ''a'']\<rparr>"

definition func_ab :: "pyval option list \<Rightarrow> func" where
  "func_ab cl = \<lparr>f_code = code_ab, f_closure = Some cl, f_globals = Map.empty, f_self = None\<rparr>"

text \<open>
  A nested function taken before its enclosing function has assigned \<^verbatim>\<open>b\<close>: two free
  variables, two cells, the second still empty.
\<close>

definition func_empty_cell :: func where
  "func_empty_cell = func_ab [Some (PInt 1), None]"

text \<open>\<open>ctx_ex\<close> after \<^verbatim>\<open>x = G\<close> has been walked with it.\<close>

definition ctx_stored :: CodeContext where
  "ctx_stored = ctx_ex\<lparr>varnames := [''x'' \<mapsto> PInt 42]\<rparr>"

text \<open>\<^verbatim>\<open>return x\<close>\<close>

definition code_load_x :: code where
  "code_load_x = code_of [ins ''LOAD_FAST'' ''x'', ins ''RETURN_VALUE'' []]"

section \<open>Facts about the dispatch and the loop\<close>

lemmas ex_defs = rt_plain_def rt_exit_def rt_warn_error_def rt_attrs_def ins_def code_of_def
  ctx_ex_def code_attr_def code_load_last_def code_store_zero_def code_store_def
  code_str_attr_def code_ret_str_attr_def code_none_attr_def
lemmas walk_defs = get_referenced_objects_def step_def dispatch_def track_line_def warn_def
  message_def set_tos_def other_instr_def init_state_def

lemma dispatch_load_global:
  "opname op \<in> set [''LOAD_GLOBAL'', ''LOAD_NAME''] \<Longrightarrow>
   dispatch rt op st =
     Inr (set_tos (case globals (wcontext st) (argval op) of Some v \<Rightarrow> v | None \<Rightarrow> PStr (argval op)) st)"
  by (auto simp: dispatch_def Let_def split: option.splits)

lemma dispatch_load_deref:
  "opname op \<in> set [''LOAD_DEREF'', ''LOAD_CLOSURE''] \<Longrightarrow>
   dispatch rt op st =
     (case cells (wcontext st) (argval op) of Some v \<Rightarrow> Inr (set_tos v st) | None \<Rightarrow> Inl (KeyError (argval op)))"
  by (auto simp: dispatch_def Let_def split: option.splits)

lemma dispatch_attr:
  "opname op \<in> set [''LOAD_METHOD'', ''LOAD_ATTR'', ''IMPORT_FROM''] \<Longrightarrow>
   dispatch rt op st =
     (case tos st of
        PNone \<Rightarrow> Inr (st\<lparr>refs := refs st @ [PStr (argval op)]\<rparr>)
      | PStr s \<Rightarrow> Inr (st\<lparr>tos := PStr (s @ ''.'' @ argval op)\<rparr>)
      | v \<Rightarrow> (case rt_getattr rt v (argval op) of Inr r \<Rightarrow> Inr (st\<lparr>tos := r\<rparr>) | Inl e \<Rightarrow> Inl e))"
  by (auto simp: dispatch_def Let_def)

lemma dispatch_load_fast:
  "opname op = ''LOAD_FAST'' \<Longrightarrow>
   dispatch rt op st =
     (case varnames (wcontext st) (argval op) of Some v \<Rightarrow> Inr (set_tos v st) | None \<Rightarrow> Inr (other_instr st))"
  by (simp add: dispatch_def Let_def)


lemma dispatch_other:
  "other_opname (opname op) \<Longrightarrow> dispatch rt op st = Inr (other_instr st)"
  by (simp add: dispatch_def Let_def other_opname_def)

lemma truthy_Exception:
  "raises_only_Exception rt \<Longrightarrow> truthy rt v = Inl e \<Longrightarrow> is_Exception e"
  by (cases v) (auto simp: raises_only_Exception_def)

lemma dispatch_Exception:
  "raises_only_Exception rt \<Longrightarrow> dispatch rt op st = Inl e \<Longrightarrow> is_Exception e"
  unfolding dispatch_def Let_def
  by (auto simp: raises_only_Exception_def split: if_splits option.splits sum.splits pyval.splits bool.splits dest: truthy_Exception[unfolded raises_only_Exception_def, OF conjI, OF _ conjI])

lemma warn_returns: "reporting_returns rt \<Longrightarrow> \<exists>st'. warn rt c e st = Inr st'"
proof -
  assume r: "reporting_returns rt"
  then obtain s where "rt_str rt e = Inr s" by (auto simp: reporting_returns_def)
  moreover from r have "rt_warn rt (message c st s) = None" by (simp add: reporting_returns_def)
  ultimately show ?thesis by (simp add: warn_def)
qed

lemma step_total:
  "raises_only_Exception rt \<Longrightarrow> reporting_returns rt \<Longrightarrow> \<exists>st'. step rt c op st = Inr st'"
  by (auto simp: step_def Let_def split: sum.splits dest: dispatch_Exception intro: warn_returns)

lemma walk_total:
  "raises_only_Exception rt \<Longrightarrow> reporting_returns rt \<Longrightarrow> \<exists>st'. walk rt c ops st = Inr st'"
proof (induction ops arbitrary: st)
  case Nil
  then show ?case by simp
next
  case (Cons op ops)
  from step_total[OF Cons.prems] obtain st1 where "step rt c op st = Inr st1" by blast
  with Cons.IH[OF Cons.prems, of st1] show ?case by simp
qed

lemma walk_append:
  "walk rt c (xs @ ys) st = (case walk rt c xs st of Inl e \<Rightarrow> Inl e | Inr st' \<Rightarrow> walk rt c ys st')"
  by (induction xs arbitrary: st) (auto split: sum.splits)


lemma step_caught:
  "dispatch rt op (track_line op st) = Inl e \<Longrightarrow> is_Exception e \<Longrightarrow>
   step rt c op st = warn rt c e (track_line op st)"
  by (simp add: step_def)

lemma step_uncaught:
  "dispatch rt op (track_line op st) = Inl e \<Longrightarrow> \<not> is_Exception e \<Longrightarrow> step rt c op st = Inl e"
  by (simp add: step_def)

lemma track_line_fields [simp]:
  "tos (track_line op st) = tos st"
  "refs (track_line op st) = refs st"
  "wcontext (track_line op st) = wcontext st"
  "warnings (track_line op st) = warnings st"
  by (simp_all add: track_line_def split: option.splits)

lemma warn_Inr:
  "warn rt c e st = Inr st' \<Longrightarrow>
   tos st' = tos st \<and> refs st' = refs st \<and> wcontext st' = wcontext st \<and> lineno st' = lineno st \<and>
   (\<exists>s. rt_str rt e = Inr s \<and> rt_warn rt (message c st s) = None \<and>
        warnings st' = warnings st @ [message c st s])"
  by (auto simp: warn_def split: sum.splits option.splits)

lemma warn_ok:
  "rt_str rt e = Inr s \<Longrightarrow> rt_warn rt (message c st s) = None \<Longrightarrow>
   warn rt c e st = Inr (st\<lparr>warnings := warnings st @ [message c st s]\<rparr>)"
  by (simp add: warn_def)

text \<open>
  C1, as the code has it. An exception of class \<^verbatim>\<open>Exception\<close> raised while an
  instruction is dispatched is caught. When reporting it succeeds (\<^verbatim>\<open>str(e)\<close> and
  \<^verbatim>\<open>warnings.warn\<close> return) exactly one message is issued and the walk goes on with
  the remaining instructions; with a runtime whose lookups raise only such exceptions and
  in which reporting succeeds, the walk of every stream in every context returns a list.
  An exception raised by the dispatch that is no \<^verbatim>\<open>Exception\<close> ends the walk and
  reaches the caller, and so does an exception raised by \<^verbatim>\<open>str(e)\<close> or by
  \<^verbatim>\<open>warnings.warn\<close> in the handler.
\<close>

theorem exceptions_contained:
  "(raises_only_Exception rt \<and> reporting_returns rt \<longrightarrow>
      (\<exists>out. get_referenced_objects rt c ctx = Inr out)) \<and>
   (\<forall>op ops st e s.
      dispatch rt op (track_line op st) = Inl e \<and> is_Exception e \<and> rt_str rt e = Inr s \<and>
      rt_warn rt (message c (track_line op st) s) = None \<longrightarrow>
      walk rt c (op # ops) st =
        walk rt c ops ((track_line op st)\<lparr>warnings := warnings st @ [message c (track_line op st) s]\<rparr>)) \<and>
   (\<forall>op ops st e. dispatch rt op (track_line op st) = Inl e \<and> \<not> is_Exception e \<longrightarrow>
      walk rt c (op # ops) st = Inl e) \<and>
   (\<forall>op ops st e e'. dispatch rt op (track_line op st) = Inl e \<and> is_Exception e \<and>
      rt_str rt e = Inl e' \<longrightarrow> walk rt c (op # ops) st = Inl e') \<and>
   (\<forall>op ops st e s e'. dispatch rt op (track_line op st) = Inl e \<and> is_Exception e \<and>
      rt_str rt e = Inr s \<and> rt_warn rt (message c (track_line op st) s) = Some e' \<longrightarrow>
      walk rt c (op # ops) st = Inl e')"
proof -
  have 1: "\<exists>out. get_referenced_objects rt c ctx = Inr out"
    if "raises_only_Exception rt \<and> reporting_returns rt"
  proof -
    from that walk_total[of rt c "instructions c" "init_state ctx"]
    show ?thesis by (auto simp: get_referenced_objects_def)
  qed
  have 2: "walk rt c (op # ops) st =
        walk rt c ops ((track_line op st)\<lparr>warnings := warnings st @ [message c (track_line op st) s]\<rparr>)"
    if "dispatch rt op (track_line op st) = Inl e \<and> is_Exception e \<and> rt_str rt e = Inr s \<and>
      rt_warn rt (message c (track_line op st) s) = None" for op ops st e s
    using that by (simp add: step_caught warn_ok)
  have 3: "walk rt c (op # ops) st = Inl e"
    if "dispatch rt op (track_line op st) = Inl e \<and> \<not> is_Exception e" for op ops st e
    using that by (simp add: step_uncaught)
  have 4: "walk rt c (op # ops) st = Inl e'"
    if "dispatch rt op (track_line op st) = Inl e \<and> is_Exception e \<and> rt_str rt e = Inl e'"
    for op ops st e e'
    using that by (simp add: step_caught warn_def)
  have 5: "walk rt c (op # ops) st = Inl e'"
    if "dispatch rt op (track_line op st) = Inl e \<and> is_Exception e \<and>
      rt_str rt e = Inr s \<and> rt_warn rt (message c (track_line op st) s) = Some e'"
    for op ops st e s e'
    using that by (simp add: step_caught warn_def)
  from 1 2 3 4 5 show ?thesis by blast
qed

lemma rt_plain_only_Exception: "raises_only_Exception rt_plain \<and> reporting_returns rt_plain"
  by (simp add: raises_only_Exception_def reporting_returns_def rt_plain_def)

theorem exceptions_contained_witness:
  "raises_only_Exception rt_plain \<and> reporting_returns rt_plain \<and>
   get_referenced_objects rt_plain code_attr ctx_ex =
     Inr \<lparr>out_refs = [PObj 1], out_context = ctx_ex,
          out_warnings = [\<lparr>w_filename = ''m.py'', w_lineno = None, w_name = ''f'',
                           w_text = ''missing''\<rparr>]\<rparr>"
proof -
  have h: "raises_only_Exception rt_plain \<and> reporting_returns rt_plain"
    by (rule rt_plain_only_Exception)
  note t = exceptions_contained[of rt_plain code_attr ctx_ex, THEN conjunct1, rule_format, OF h]
  show ?thesis using h t by (simp add: ex_defs walk_defs)
qed

text \<open>
  \<^verbatim>\<open>return OBJ.missing\<close> twice. \<^verbatim>\<open>except Exception\<close> does not catch
  \<^verbatim>\<open>SystemExit\<close>: raised by the attribute lookup, it reaches the caller. Under the
  warnings filter \<^verbatim>\<open>error\<close> the \<^verbatim>\<open>AttributeError\<close> of the lookup is caught, and
  \<^verbatim>\<open>warnings.warn\<close> in the handler raises the warning, which reaches the caller. No
  list is returned in either case.
\<close>

theorem exit_propagates_counterexample:
  "get_referenced_objects rt_exit code_attr ctx_ex = Inl SystemExit \<and>
   get_referenced_objects rt_warn_error code_attr ctx_ex = Inl (UserWarning ''missing'')"
  by (simp add: ex_defs walk_defs)

text \<open>
  C2, as the code has it. The register is one Python value and the three cases are told
  apart by \<^verbatim>\<open>tos is None\<close> and \<^verbatim>\<open>isinstance(tos, str)\<close>, whatever the value came
  from. For \<^verbatim>\<open>LOAD_METHOD\<close>, \<^verbatim>\<open>LOAD_ATTR\<close> and \<^verbatim>\<open>IMPORT_FROM\<close> with operand
  \<open>attr\<close>: when \<^verbatim>\<open>tos\<close> is \<open>None\<close> the string \<open>attr\<close> is appended to
  \<^verbatim>\<open>refs\<close> and \<^verbatim>\<open>tos\<close> stays \<open>None\<close>; when \<^verbatim>\<open>tos\<close> is a string \<open>s\<close>, a
  partial name or a resolved value alike, it becomes \<open>s + "." + attr\<close>, nothing is
  appended and no lookup is made; when \<^verbatim>\<open>tos\<close> is any other value and \<^verbatim>\<open>getattr\<close>
  succeeds, \<^verbatim>\<open>tos\<close> becomes the result. Nothing else of the state changes but the line
  bookkeeping.
\<close>

theorem load_attr_three_cases:
  "opname op \<in> set [''LOAD_METHOD'', ''LOAD_ATTR'', ''IMPORT_FROM''] \<Longrightarrow>
   (tos st = PNone \<longrightarrow>
      step rt c op st = Inr ((track_line op st)\<lparr>refs := refs st @ [PStr (argval op)]\<rparr>)) \<and>
   (\<forall>s. tos st = PStr s \<longrightarrow>
      step rt c op st = Inr ((track_line op st)\<lparr>tos := PStr (s @ ''.'' @ argval op)\<rparr>)) \<and>
   (\<forall>r. tos st \<noteq> PNone \<and> (\<forall>s. tos st \<noteq> PStr s) \<and> rt_getattr rt (tos st) (argval op) = Inr r \<longrightarrow>
      step rt c op st = Inr ((track_line op st)\<lparr>tos := r\<rparr>))"
proof -
  assume a: "opname op \<in> set [''LOAD_METHOD'', ''LOAD_ATTR'', ''IMPORT_FROM'']"
  note d = dispatch_attr[OF a, of rt "track_line op st"]
  show ?thesis
    by (cases "tos st") (auto simp: d step_def)
qed

theorem load_attr_three_cases_witness:
  "''LOAD_ATTR'' \<in> set [''LOAD_METHOD'', ''LOAD_ATTR'', ''IMPORT_FROM''] \<and>
   step rt_plain code_attr (ins ''LOAD_ATTR'' ''b'') (init_state ctx_ex\<lparr>tos := PStr ''a''\<rparr>) =
     Inr (init_state ctx_ex\<lparr>tos := PStr ''a.b''\<rparr>)"
proof -
  have h: "opname (ins ''LOAD_ATTR'' ''b'') \<in> set [''LOAD_METHOD'', ''LOAD_ATTR'', ''IMPORT_FROM'']"
    by (simp add: ins_def)
  note t = load_attr_three_cases[OF h, of "init_state ctx_ex\<lparr>tos := PStr ''a''\<rparr>" rt_plain code_attr,
      THEN conjunct2, THEN conjunct1, rule_format, of "''a''"]
  show ?thesis using t by (simp add: ins_def track_line_def init_state_def)
qed

text \<open>
  \<^verbatim>\<open>return S.upper\<close> with \<^verbatim>\<open>S = "abc"\<close>, a resolved value, and a runtime in which the
  lookup of \<^verbatim>\<open>upper\<close> on it would succeed: no lookup is attempted, the register
  becomes the string \<open>abc.upper\<close> and that is what the walk returns.
\<close>

theorem resolved_string_not_looked_up_counterexample:
  "rt_getattr rt_attrs (PStr ''abc'') ''upper'' = Inr (PObj 7) \<and>
   step rt_attrs code_ret_str_attr (ins ''LOAD_ATTR'' ''upper'') (init_state ctx_ex\<lparr>tos := PStr ''abc''\<rparr>) =
     Inr (init_state ctx_ex\<lparr>tos := PStr ''abc.upper''\<rparr>) \<and>
   get_referenced_objects rt_attrs code_ret_str_attr ctx_ex =
     Inr \<lparr>out_refs = [PStr ''abc.upper''], out_context = ctx_ex, out_warnings = []\<rparr>"
  by (simp add: ex_defs walk_defs)

lemma walk_snoc:
  "walk rt c ops st = Inr st' \<Longrightarrow> walk rt c (ops @ [op]) st = step rt c op st'"
  by (simp add: walk_append split: sum.splits)

lemma step_other:
  "other_opname (opname op) \<Longrightarrow> step rt c op st = Inr (other_instr (track_line op st))"
  by (simp add: step_def dispatch_other)

lemma message_instructions [simp]: "message (c\<lparr>instructions := xs\<rparr>) st s = message c st s"
  by (simp add: message_def)

lemma warn_instructions [simp]: "warn rt (c\<lparr>instructions := xs\<rparr>) e st = warn rt c e st"
  by (simp add: warn_def split: sum.splits option.splits)

lemma step_instructions [simp]: "step rt (c\<lparr>instructions := xs\<rparr>) op st = step rt c op st"
  by (simp add: step_def Let_def split: sum.splits)

lemma walk_instructions [simp]: "walk rt (c\<lparr>instructions := xs\<rparr>) ops st = walk rt c ops st"
  by (induction ops arbitrary: st) (simp_all split: sum.splits)

lemma other_instr_fields:
  "tos (other_instr st) = PNone"
  "refs (other_instr st) = refs st @ (if tos st = PNone then [] else [tos st])"
  "wcontext (other_instr st) = wcontext st"
  "warnings (other_instr st) = warnings st"
  by (simp_all add: other_instr_def)

text \<open>
  C3, as the code has it. \<^verbatim>\<open>get_referenced_objects\<close> returns \<^verbatim>\<open>refs\<close> as the last
  instruction left it: a value still pending in \<^verbatim>\<open>tos\<close> is not appended. The pending
  value is committed only by a later instruction: the same stream followed by one
  instruction of any other kind (the return that ends a compiled stream) yields the list
  with the pending value at its end.
\<close>

theorem pending_value_not_committed:
  "walk rt c (instructions c) (init_state ctx) = Inr st \<Longrightarrow>
   get_referenced_objects rt c ctx =
     Inr \<lparr>out_refs = refs st, out_context = wcontext st, out_warnings = warnings st\<rparr> \<and>
   (other_opname (opname op) \<longrightarrow>
      get_referenced_objects rt (c\<lparr>instructions := instructions c @ [op]\<rparr>) ctx =
        Inr \<lparr>out_refs = refs st @ (if tos st = PNone then [] else [tos st]),
             out_context = wcontext st, out_warnings = warnings st\<rparr>)"
proof -
  assume w: "walk rt c (instructions c) (init_state ctx) = Inr st"
  have 1: "get_referenced_objects rt c ctx =
     Inr \<lparr>out_refs = refs st, out_context = wcontext st, out_warnings = warnings st\<rparr>"
    using w by (simp add: get_referenced_objects_def)
  have 2: "get_referenced_objects rt (c\<lparr>instructions := instructions c @ [op]\<rparr>) ctx =
        Inr \<lparr>out_refs = refs st @ (if tos st = PNone then [] else [tos st]),
             out_context = wcontext st, out_warnings = warnings st\<rparr>"
    if o: "other_opname (opname op)"
  proof -
    have "walk rt c (instructions c @ [op]) (init_state ctx) = Inr (other_instr (track_line op st))"
      using walk_snoc[OF w, of op] step_other[OF o, of rt c st] by simp
    then show ?thesis
      by (simp add: get_referenced_objects_def other_instr_fields)
  qed
  from 1 2 show ?thesis by blast
qed

theorem pending_value_not_committed_witness:
  "walk rt_plain code_load_last (instructions code_load_last) (init_state ctx_ex) =
     Inr (init_state ctx_ex\<lparr>tos := PInt 42\<rparr>) \<and>
   other_opname ''RETURN_VALUE'' \<and>
   get_referenced_objects rt_plain
       (code_load_last\<lparr>instructions := instructions code_load_last @ [ins ''RETURN_VALUE'' []]\<rparr>)
       ctx_ex =
     Inr \<lparr>out_refs = [PInt 42], out_context = ctx_ex, out_warnings = []\<rparr>"
proof -
  have h: "walk rt_plain code_load_last (instructions code_load_last) (init_state ctx_ex) =
     Inr (init_state ctx_ex\<lparr>tos := PInt 42\<rparr>)"
    by (simp add: ex_defs walk_defs)
  have o: "other_opname (opname (ins ''RETURN_VALUE'' []))"
    by (simp add: other_opname_def ins_def)
  note t = pending_value_not_committed[OF h, of "ins ''RETURN_VALUE'' []", THEN conjunct2, rule_format, OF o]
  show ?thesis using h o t by (simp add: init_state_def ins_def)
qed

text \<open>
  The stream that consists of \<^verbatim>\<open>LOAD_GLOBAL G\<close> alone, with \<^verbatim>\<open>G = 42\<close>: after the
  last instruction \<^verbatim>\<open>tos\<close> holds 42 and the list returned is empty.
\<close>

theorem final_load_dropped_counterexample:
  "walk rt_plain code_load_last (instructions code_load_last) (init_state ctx_ex) =
     Inr \<lparr>tos = PInt 42, lineno = None, refs = [], wcontext = ctx_ex, warnings = []\<rparr> \<and>
   get_referenced_objects rt_plain code_load_last ctx_ex =
     Inr \<lparr>out_refs = [], out_context = ctx_ex, out_warnings = []\<rparr>"
  by (simp add: ex_defs walk_defs)




text \<open>
  C5. \<^verbatim>\<open>STORE_FAST\<close> tests \<^verbatim>\<open>tos\<close> for truth, where the other branches test
  \<^verbatim>\<open>tos is None\<close>. For \<^verbatim>\<open>x = ZERO\<close> with \<^verbatim>\<open>ZERO = 0\<close> the pending 0 is not
  stored under \<^verbatim>\<open>x\<close>: the instruction falls through to the final \<^verbatim>\<open>else\<close>, which
  appends 0 to \<^verbatim>\<open>refs\<close>, and \<^verbatim>\<open>varnames\<close> is left without \<^verbatim>\<open>x\<close>.
\<close>

theorem store_fast_falsy_committed:
  "get_referenced_objects rt_plain code_store_zero ctx_ex =
     Inr \<lparr>out_refs = [PInt 0], out_context = ctx_ex, out_warnings = []\<rparr> \<and>
   step rt_plain code_store_zero (ins ''STORE_FAST'' ''x'') (init_state ctx_ex\<lparr>tos := PInt 0\<rparr>) =
     Inr (init_state ctx_ex\<lparr>refs := [PInt 0]\<rparr>)"
  by (simp add: ex_defs walk_defs)


lemmas ex2_defs = ctx_stored_def code_load_x_def code_ab_def func_ab_def func_empty_cell_def

lemma cell_contents_None: "None \<in> set cl \<Longrightarrow> cell_contents cl = Inl (ValueError ''Cell is empty'')"
proof (induction cl)
  case Nil
  then show ?case by simp
next
  case (Cons x cl)
  then show ?case by (cases x) auto
qed

lemma cell_contents_Some: "cell_contents (map Some vs) = Inr vs"
  by (induction vs) simp_all

lemma dict_update_other: "k \<notin> fst ` set kvs \<Longrightarrow> dict_update kvs m k = m k"
  unfolding dict_update_def
  by (induction kvs arbitrary: m) auto

lemma dict_update_nth:
  "length ks = length vs \<Longrightarrow> distinct ks \<Longrightarrow> i < length ks \<Longrightarrow>
   dict_update (zip ks vs) m (ks ! i) = Some (vs ! i)"
proof (induction ks vs arbitrary: m i rule: list_induct2)
  case Nil
  then show ?case by simp
next
  case (Cons k ks v vs)
  have step: "dict_update ((k, v) # zip ks vs) m = dict_update (zip ks vs) (m(k \<mapsto> v))"
    by (simp add: dict_update_def)
  show ?case
  proof (cases i)
    case 0
    from Cons.prems have "k \<notin> fst ` set (zip ks vs)"
      by (auto dest: set_zip_leftD)
    then show ?thesis using 0 by (simp add: step dict_update_other)
  next
    case (Suc j)
    with Cons.prems have "distinct ks" "j < length ks" by simp_all
    from Cons.IH[OF this, of "m(k \<mapsto> v)"]
    have "dict_update (zip ks vs) (m(k \<mapsto> v)) (ks ! j) = Some (vs ! j)" .
    moreover have "dict_update (zip (k # ks) (v # vs)) m ((k # ks) ! i) =
        dict_update (zip ks vs) (m(k \<mapsto> v)) (ks ! j)"
      using Suc by (simp add: step)
    ultimately show ?thesis using Suc by simp
  qed
qed

text \<open>
  C6, as the code has it. When \<^verbatim>\<open>__closure__\<close> is a tuple of as many cells as there
  are names in \<^verbatim>\<open>co_freevars\<close> and every cell is filled, a context is built and (the
  names being distinct) every free variable is bound in \<^verbatim>\<open>cells\<close> to the contents of
  the cell at its position. When \<^verbatim>\<open>co_freevars\<close> is not empty: a cell that is still
  empty makes \<^verbatim>\<open>get_code_context\<close> fail with \<^verbatim>\<open>ValueError\<close>, a closure of another
  length with \<^verbatim>\<open>AssertionError\<close>, a closure that is \<open>None\<close> with \<^verbatim>\<open>TypeError\<close>;
  \<^verbatim>\<open>get_references\<close> then fails in the same way, and has not walked any instruction.
  When \<^verbatim>\<open>co_freevars\<close> is empty the closure is not looked at and a context is built.
\<close>

theorem context_pairs_cells:
  "(f_closure f = Some (map Some vs) \<and> length vs = length (co_freevars (f_code f)) \<longrightarrow>
      (\<exists>ctx. get_code_context f = Inr ctx \<and>
         (distinct (co_freevars (f_code f)) \<longrightarrow>
            (\<forall>i < length vs. cells ctx (co_freevars (f_code f) ! i) = Some (vs ! i))))) \<and>
   (co_freevars (f_code f) \<noteq> [] \<and> f_closure f = Some cl \<and>
      length cl = length (co_freevars (f_code f)) \<and> None \<in> set cl \<longrightarrow>
      get_code_context f = Inl (ValueError ''Cell is empty'') \<and>
      get_references rt f = Inl (ValueError ''Cell is empty'')) \<and>
   (co_freevars (f_code f) \<noteq> [] \<and> f_closure f = Some cl \<and>
      length cl \<noteq> length (co_freevars (f_code f)) \<longrightarrow>
      get_code_context f = Inl AssertionError \<and> get_references rt f = Inl AssertionError) \<and>
   (co_freevars (f_code f) \<noteq> [] \<and> f_closure f = None \<longrightarrow>
      get_code_context f = Inl (TypeError ''object of type NoneType has no len()'') \<and>
      get_references rt f = Inl (TypeError ''object of type NoneType has no len()'')) \<and>
   (co_freevars (f_code f) = [] \<longrightarrow> (\<exists>ctx. get_code_context f = Inr ctx))"
proof -
  have 1: "\<exists>ctx. get_code_context f = Inr ctx \<and>
         (distinct (co_freevars (f_code f)) \<longrightarrow>
            (\<forall>i < length vs. cells ctx (co_freevars (f_code f) ! i) = Some (vs ! i)))"
    if a: "f_closure f = Some (map Some vs) \<and> length vs = length (co_freevars (f_code f))"
  proof (cases "co_freevars (f_code f) = []")
    case True
    with a show ?thesis by (simp add: get_code_context_def Let_def)
  next
    case False
    with a show ?thesis
      by (simp add: get_code_context_def Let_def cell_contents_Some dict_update_nth)
  qed
  have 2: "get_code_context f = Inl (ValueError ''Cell is empty'') \<and>
      get_references rt f = Inl (ValueError ''Cell is empty'')"
    if a: "co_freevars (f_code f) \<noteq> [] \<and> f_closure f = Some cl \<and>
      length cl = length (co_freevars (f_code f)) \<and> None \<in> set cl"
  proof -
    from a have "get_code_context f = Inl (ValueError ''Cell is empty'')"
      by (simp add: get_code_context_def Let_def cell_contents_None)
    then show ?thesis by (simp add: get_references_def)
  qed
  have 3: "get_code_context f = Inl AssertionError \<and> get_references rt f = Inl AssertionError"
    if a: "co_freevars (f_code f) \<noteq> [] \<and> f_closure f = Some cl \<and>
      length cl \<noteq> length (co_freevars (f_code f))"
  proof -
    from a have "get_code_context f = Inl AssertionError"
      by (auto simp: get_code_context_def Let_def)
    then show ?thesis by (simp add: get_references_def)
  qed
  have 4: "get_code_context f = Inl (TypeError ''object of type NoneType has no len()'') \<and>
      get_references rt f = Inl (TypeError ''object of type NoneType has no len()'')"
    if a: "co_freevars (f_code f) \<noteq> [] \<and> f_closure f = None"
  proof -
    from a have "get_code_context f = Inl (TypeError ''object of type NoneType has no len()'')"
      by (simp add: get_code_context_def Let_def)
    then show ?thesis by (simp add: get_references_def)
  qed
  have 5: "\<exists>ctx. get_code_context f = Inr ctx" if "co_freevars (f_code f) = []"
    using that by (simp add: get_code_context_def Let_def)
  from 1 2 3 4 5 show ?thesis by blast
qed

theorem context_pairs_cells_witness:
  "co_freevars (f_code (func_ab [Some (PInt 1)])) \<noteq> [] \<and>
   f_closure (func_ab [Some (PInt 1)]) = Some [Some (PInt 1)] \<and>
   length [Some (PInt 1)] \<noteq> length (co_freevars (f_code (func_ab [Some (PInt 1)]))) \<and>
   get_code_context (func_ab [Some (PInt 1)]) = Inl AssertionError \<and>
   get_references rt_plain (func_ab [Some (PInt 1)]) = Inl AssertionError \<and>
   f_closure (func_ab [Some (PInt 1), Some (PInt 2)]) = Some (map Some [PInt 1, PInt 2]) \<and>
   length [PInt 1, PInt 2] = length (co_freevars (f_code (func_ab [Some (PInt 1), Some (PInt 2)]))) \<and>
   distinct (co_freevars (f_code (func_ab [Some (PInt 1), Some (PInt 2)]))) \<and>
   map_sum id (\<lambda>ctx. map (cells ctx) [''a'', ''b'', ''c''])
       (get_code_context (func_ab [Some (PInt 1), Some (PInt 2)])) =
     Inr [Some (PInt 1), Some (PInt 2), Some (PStr ''c'')]"
proof -
  have h: "co_freevars (f_code (func_ab [Some (PInt 1)])) \<noteq> [] \<and>
     f_closure (func_ab [Some (PInt 1)]) = Some [Some (PInt 1)] \<and>
     length [Some (PInt 1)] \<noteq> length (co_freevars (f_code (func_ab [Some (PInt 1)])))"
    by (simp add: func_ab_def code_ab_def)
  note t = context_pairs_cells[of "func_ab [Some (PInt 1)]" _ "[Some (PInt 1)]" rt_plain,
      THEN conjunct2, THEN conjunct2, THEN conjunct1, rule_format, OF h]
  have k: "f_closure (func_ab [Some (PInt 1), Some (PInt 2)]) = Some (map Some [PInt 1, PInt 2]) \<and>
     length [PInt 1, PInt 2] = length (co_freevars (f_code (func_ab [Some (PInt 1), Some (PInt 2)])))"
    by (simp add: func_ab_def code_ab_def)
  have d: "distinct (co_freevars (f_code (func_ab [Some (PInt 1), Some (PInt 2)])))"
    by (simp add: func_ab_def code_ab_def)
  note u = context_pairs_cells[of "func_ab [Some (PInt 1), Some (PInt 2)]" "[PInt 1, PInt 2]",
      THEN conjunct1, rule_format, OF k]
  have c: "map_sum id (\<lambda>ctx. map (cells ctx) [''a'', ''b'', ''c''])
       (get_code_context (func_ab [Some (PInt 1), Some (PInt 2)])) =
     Inr [Some (PInt 1), Some (PInt 2), Some (PStr ''c'')]"
    by (simp add: func_ab_def code_ab_def get_code_context_def Let_def dict_update_def)
  from h t k d u c show ?thesis by simp
qed

text \<open>
  The nested function with a cell that is still empty: as many cells as names, and yet
  no name is paired with a value: \<^verbatim>\<open>get_code_context\<close> fails, with a \<^verbatim>\<open>ValueError\<close>
  and not with the \<^verbatim>\<open>AssertionError\<close> of a length mismatch.
\<close>

theorem empty_cell_fails_counterexample:
  "length (co_freevars (f_code func_empty_cell)) = 2 \<and>
   f_closure func_empty_cell = Some [Some (PInt 1), None] \<and>
   get_code_context func_empty_cell = Inl (ValueError ''Cell is empty'') \<and>
   get_references rt_plain func_empty_cell = Inl (ValueError ''Cell is empty'')"
  by (simp add: ex2_defs get_code_context_def get_references_def Let_def)









lemma step_load_global:
  "opname op \<in> set [''LOAD_GLOBAL'', ''LOAD_NAME''] \<Longrightarrow> globals (wcontext st) (argval op) = Some v \<Longrightarrow>
   step rt c op st = Inr (set_tos v (track_line op st))"
  by (simp add: step_def dispatch_load_global)

lemma step_load_deref:
  "opname op \<in> set [''LOAD_DEREF'', ''LOAD_CLOSURE''] \<Longrightarrow> cells (wcontext st) (argval op) = Some v \<Longrightarrow>
   step rt c op st = Inr (set_tos v (track_line op st))"
  by (simp add: step_def dispatch_load_deref)

lemma step_load_fast:
  "opname op = ''LOAD_FAST'' \<Longrightarrow> varnames (wcontext st) (argval op) = Some v \<Longrightarrow>
   step rt c op st = Inr (set_tos v (track_line op st))"
  by (simp add: step_def dispatch_load_fast)

lemma step_attr_None:
  "opname op \<in> set [''LOAD_METHOD'', ''LOAD_ATTR'', ''IMPORT_FROM''] \<Longrightarrow> tos st = PNone \<Longrightarrow>
   step rt c op st = Inr ((track_line op st)\<lparr>refs := refs st @ [PStr (argval op)]\<rparr>)"
  by (simp add: step_def dispatch_attr)

lemma step_attr_Str:
  "opname op \<in> set [''LOAD_METHOD'', ''LOAD_ATTR'', ''IMPORT_FROM''] \<Longrightarrow> tos st = PStr s \<Longrightarrow>
   step rt c op st = Inr ((track_line op st)\<lparr>tos := PStr (s @ ''.'' @ argval op)\<rparr>)"
  by (simp add: step_def dispatch_attr)

lemma set_tos_fields:
  "tos (set_tos v st) = v"
  "refs (set_tos v st) = refs st @ (if tos st = PNone then [] else [tos st])"
  "wcontext (set_tos v st) = wcontext st"
  "warnings (set_tos v st) = warnings st"
  by (simp_all add: set_tos_def)

text \<open>
  C9, as the code has it. When the global \<open>n\<close> is bound to a string \<open>s\<close>,
  \<^verbatim>\<open>LOAD_GLOBAL n\<close> followed by \<^verbatim>\<open>LOAD_ATTR a\<close> leaves \<open>s + "." + a\<close> pending in
  \<^verbatim>\<open>tos\<close>, whatever \<^verbatim>\<open>getattr\<close> would have answered, and nothing in \<^verbatim>\<open>refs\<close>;
  an instruction of any other kind after the two makes it the single entry of the list
  returned.
\<close>

theorem string_global_is_partial_name:
  "globals ctx (argval lg) = Some (PStr s) \<Longrightarrow>
   opname lg \<in> set [''LOAD_GLOBAL'', ''LOAD_NAME''] \<Longrightarrow>
   opname la \<in> set [''LOAD_METHOD'', ''LOAD_ATTR'', ''IMPORT_FROM''] \<Longrightarrow>
   (\<exists>st. walk rt c [lg, la] (init_state ctx) = Inr st \<and>
      tos st = PStr (s @ ''.'' @ argval la) \<and> refs st = [] \<and> warnings st = []) \<and>
   (other_opname (opname ot) \<and> instructions c = [lg, la, ot] \<longrightarrow>
      get_referenced_objects rt c ctx =
        Inr \<lparr>out_refs = [PStr (s @ ''.'' @ argval la)], out_context = ctx, out_warnings = []\<rparr>)"
proof -
  assume g: "globals ctx (argval lg) = Some (PStr s)"
    and lg: "opname lg \<in> set [''LOAD_GLOBAL'', ''LOAD_NAME'']"
    and la: "opname la \<in> set [''LOAD_METHOD'', ''LOAD_ATTR'', ''IMPORT_FROM'']"
  let ?s0 = "init_state ctx"
  let ?s1 = "set_tos (PStr s) (track_line lg ?s0)"
  let ?s2 = "(track_line la ?s1)\<lparr>tos := PStr (s @ ''.'' @ argval la)\<rparr>"
  have 1: "step rt c lg ?s0 = Inr ?s1"
    using g by (intro step_load_global[OF lg]) (simp add: init_state_def)
  have 2: "step rt c la ?s1 = Inr ?s2"
    by (intro step_attr_Str[OF la]) (simp add: set_tos_fields)
  have w: "walk rt c [lg, la] ?s0 = Inr ?s2"
    by (simp add: 1 2)
  have f: "tos ?s2 = PStr (s @ ''.'' @ argval la)" "refs ?s2 = []" "warnings ?s2 = []"
    "wcontext ?s2 = ctx"
    by (simp_all add: set_tos_fields init_state_def)
  have 3: "get_referenced_objects rt c ctx =
        Inr \<lparr>out_refs = [PStr (s @ ''.'' @ argval la)], out_context = ctx, out_warnings = []\<rparr>"
    if o: "other_opname (opname ot) \<and> instructions c = [lg, la, ot]"
  proof -
    have "walk rt c [lg, la, ot] ?s0 = Inr (other_instr (track_line ot ?s2))"
      using walk_snoc[OF w, of ot] o by (simp add: step_other)
    with o f show ?thesis
      by (simp add: get_referenced_objects_def other_instr_fields)
  qed
  from w f 3 show ?thesis by blast
qed

theorem string_global_is_partial_name_witness:
  "globals ctx_ex (argval (ins ''LOAD_GLOBAL'' ''S'')) = Some (PStr ''abc'') \<and>
   opname (ins ''LOAD_GLOBAL'' ''S'') \<in> set [''LOAD_GLOBAL'', ''LOAD_NAME''] \<and>
   opname (ins ''LOAD_ATTR'' ''upper'') \<in> set [''LOAD_METHOD'', ''LOAD_ATTR'', ''IMPORT_FROM''] \<and>
   other_opname (opname (ins ''RETURN_VALUE'' [])) \<and>
   get_referenced_objects rt_plain
     (code_of [ins ''LOAD_GLOBAL'' ''S'', ins ''LOAD_ATTR'' ''upper'', ins ''RETURN_VALUE'' []]) ctx_ex =
     Inr \<lparr>out_refs = [PStr ''abc.upper''], out_context = ctx_ex, out_warnings = []\<rparr>"
proof -
  have g: "globals ctx_ex (argval (ins ''LOAD_GLOBAL'' ''S'')) = Some (PStr ''abc'')"
    by (simp add: ctx_ex_def ins_def)
  have lg: "opname (ins ''LOAD_GLOBAL'' ''S'') \<in> set [''LOAD_GLOBAL'', ''LOAD_NAME'']"
    by (simp add: ins_def)
  have la: "opname (ins ''LOAD_ATTR'' ''upper'') \<in> set [''LOAD_METHOD'', ''LOAD_ATTR'', ''IMPORT_FROM'']"
    by (simp add: ins_def)
  have o: "other_opname (opname (ins ''RETURN_VALUE'' [])) \<and>
     instructions (code_of [ins ''LOAD_GLOBAL'' ''S'', ins ''LOAD_ATTR'' ''upper'', ins ''RETURN_VALUE'' []]) =
       [ins ''LOAD_GLOBAL'' ''S'', ins ''LOAD_ATTR'' ''upper'', ins ''RETURN_VALUE'' []]"
    by (simp add: other_opname_def ins_def code_of_def)
  note t = string_global_is_partial_name[OF g lg la, THEN conjunct2, rule_format, OF o, of rt_plain]
  from g lg la o t show ?thesis by (simp add: ins_def)
qed

text \<open>
  The two instructions of \<^verbatim>\<open>S.upper\<close> alone, with \<^verbatim>\<open>S = "abc"\<close>: the list returned
  is empty.
\<close>

theorem string_attr_pending_counterexample:
  "get_referenced_objects rt_plain code_str_attr ctx_ex =
     Inr \<lparr>out_refs = [], out_context = ctx_ex, out_warnings = []\<rparr>"
  by (simp add: ex_defs walk_defs)

lemma dispatch_no_None:
  "dispatch rt op st = Inr st' \<Longrightarrow> PNone \<notin> set (refs st) \<Longrightarrow> PNone \<notin> set (refs st')"
  unfolding dispatch_def Let_def
  by (auto simp: set_tos_def other_instr_def
      split: if_splits option.splits sum.splits pyval.splits bool.splits)

lemma step_no_None:
  "step rt c op st = Inr st' \<Longrightarrow> PNone \<notin> set (refs st) \<Longrightarrow> PNone \<notin> set (refs st')"
  unfolding step_def Let_def
  by (auto split: sum.splits if_splits dest: dispatch_no_None warn_Inr)

lemma walk_no_None:
  "walk rt c ops st = Inr st' \<Longrightarrow> PNone \<notin> set (refs st) \<Longrightarrow> PNone \<notin> set (refs st')"
proof (induction ops arbitrary: st)
  case Nil
  then show ?case by simp
next
  case (Cons op ops)
  then obtain st1 where s: "step rt c op st = Inr st1" and w: "walk rt c ops st1 = Inr st'"
    by (auto split: sum.splits)
  from Cons.IH[OF w step_no_None[OF s Cons.prems(2)]] show ?case .
qed

text \<open>
  C10. A \<^verbatim>\<open>LOAD_GLOBAL\<close>, \<^verbatim>\<open>LOAD_NAME\<close>, \<^verbatim>\<open>LOAD_DEREF\<close>, \<^verbatim>\<open>LOAD_CLOSURE\<close>
  or \<^verbatim>\<open>LOAD_FAST\<close> whose name is bound to \<open>None\<close> commits what was pending and leaves
  \<^verbatim>\<open>tos\<close> \<open>None\<close>, without a warning; a \<^verbatim>\<open>LOAD_ATTR\<close> right after it appends its
  bare operand. \<open>None\<close> is never an element of the list returned.
\<close>

theorem none_value_is_empty:
  "(opname op \<in> set [''LOAD_GLOBAL'', ''LOAD_NAME''] \<and> globals (wcontext st) (argval op) = Some PNone) \<or>
   (opname op \<in> set [''LOAD_DEREF'', ''LOAD_CLOSURE''] \<and> cells (wcontext st) (argval op) = Some PNone) \<or>
   (opname op = ''LOAD_FAST'' \<and> varnames (wcontext st) (argval op) = Some PNone) \<Longrightarrow>
   opname la \<in> set [''LOAD_METHOD'', ''LOAD_ATTR'', ''IMPORT_FROM''] \<Longrightarrow>
   (\<exists>st1. step rt c op st = Inr st1 \<and> tos st1 = PNone \<and>
      refs st1 = refs st @ (if tos st = PNone then [] else [tos st]) \<and>
      warnings st1 = warnings st \<and> wcontext st1 = wcontext st \<and>
      step rt c la st1 = Inr ((track_line la st1)\<lparr>refs := refs st1 @ [PStr (argval la)]\<rparr>)) \<and>
   (\<forall>c' ctx out. get_referenced_objects rt c' ctx = Inr out \<longrightarrow> PNone \<notin> set (out_refs out))"
proof -
  assume l: "(opname op \<in> set [''LOAD_GLOBAL'', ''LOAD_NAME''] \<and> globals (wcontext st) (argval op) = Some PNone) \<or>
   (opname op \<in> set [''LOAD_DEREF'', ''LOAD_CLOSURE''] \<and> cells (wcontext st) (argval op) = Some PNone) \<or>
   (opname op = ''LOAD_FAST'' \<and> varnames (wcontext st) (argval op) = Some PNone)"
    and la: "opname la \<in> set [''LOAD_METHOD'', ''LOAD_ATTR'', ''IMPORT_FROM'']"
  let ?s1 = "set_tos PNone (track_line op st)"
  from l have 1: "step rt c op st = Inr ?s1"
    using step_load_global[of op st PNone rt c] step_load_deref[of op st PNone rt c]
      step_load_fast[of op st PNone rt c]
    by blast
  have 2: "step rt c la ?s1 = Inr ((track_line la ?s1)\<lparr>refs := refs ?s1 @ [PStr (argval la)]\<rparr>)"
    by (intro step_attr_None[OF la]) (simp add: set_tos_fields)
  have 3: "PNone \<notin> set (out_refs out)" if "get_referenced_objects rt c' ctx = Inr out" for c' ctx out
  proof -
    from that obtain st' where w: "walk rt c' (instructions c') (init_state ctx) = Inr st'"
      and o: "out_refs out = refs st'"
      by (auto simp: get_referenced_objects_def split: sum.splits)
    from walk_no_None[OF w] o show ?thesis by (simp add: init_state_def)
  qed
  have f: "tos ?s1 = PNone" "refs ?s1 = refs st @ (if tos st = PNone then [] else [tos st])"
    "warnings ?s1 = warnings st" "wcontext ?s1 = wcontext st"
    by (simp_all add: set_tos_fields)
  from 1 2 3 f show ?thesis by blast
qed

theorem none_value_is_empty_witness:
  "opname (ins ''LOAD_GLOBAL'' ''N'') \<in> set [''LOAD_GLOBAL'', ''LOAD_NAME''] \<and>
   globals (wcontext (init_state ctx_ex)) (argval (ins ''LOAD_GLOBAL'' ''N'')) = Some PNone \<and>
   opname (ins ''LOAD_ATTR'' ''real'') \<in> set [''LOAD_METHOD'', ''LOAD_ATTR'', ''IMPORT_FROM''] \<and>
   get_referenced_objects rt_plain code_none_attr ctx_ex =
     Inr \<lparr>out_refs = [PStr ''real''], out_context = ctx_ex, out_warnings = []\<rparr> \<and>
   PNone \<notin> set [PStr ''real'']"
proof -
  have l: "opname (ins ''LOAD_GLOBAL'' ''N'') \<in> set [''LOAD_GLOBAL'', ''LOAD_NAME''] \<and>
     globals (wcontext (init_state ctx_ex)) (argval (ins ''LOAD_GLOBAL'' ''N'')) = Some PNone"
    by (simp add: ins_def init_state_def ctx_ex_def)
  have la: "opname (ins ''LOAD_ATTR'' ''real'') \<in> set [''LOAD_METHOD'', ''LOAD_ATTR'', ''IMPORT_FROM'']"
    by (simp add: ins_def)
  have g: "get_referenced_objects rt_plain code_none_attr ctx_ex =
     Inr \<lparr>out_refs = [PStr ''real''], out_context = ctx_ex, out_warnings = []\<rparr>"
    by (simp add: ex_defs walk_defs)
  note t = none_value_is_empty[OF disjI1, OF l la, of rt_plain code_none_attr, THEN conjunct2,
      rule_format, OF g]
  from l la g t show ?thesis by simp
qed

end
